theory Spec2Isabelle
  imports Main
begin

section \<open>Data model of script.js\<close>

text \<open>
  The metadata document is a loosely typed JSON object. A field of the document is
  modelled as an option: \<open>None\<close> stands for a field that is absent (or holds a falsy
  value such as \<open>null\<close>), which is what the presence checks \<open>!parsed.users\<close> of the
  source test; \<open>Some\<close> holds a value of the expected shape. Reading a property of an
  absent field (\<open>m.users.find\<close>, \<open>m.nextIds.user\<close>) throws a TypeError in the source
  and is an error value here.
\<close>

datatype error = TypeError

record user =
  user_id :: int
  username :: string
  password :: string
  displayName :: string
  bio :: string
  verified :: bool
  superAdmin :: bool
  imageAssetId :: "string option"
  createdAt :: int

record song =
  song_id :: string
  title :: string
  artist :: string
  albumId :: string
  duration :: int
  assetId :: string
  coverAssetId :: string
  genre :: string
  language :: string
  explicit :: bool
  uploadedBy :: string

record album =
  album_id :: string
  album_title :: string
  album_artist :: string
  year :: int
  album_coverAssetId :: string
  tracks :: "string list"

record playlist =
  playlist_id :: string
  name :: string
  owner :: string
  playlist_tracks :: "string list"
  playlist_coverAssetId :: "string option"
  is_private :: bool
  sharedWith :: "string list"
  playlist_createdAt :: int

record nextIds =
  nid_song :: int
  nid_album :: int
  nid_playlist :: int
  nid_user :: int

record meta =
  users :: "user list option"
  songs :: "song list option"
  albums :: "album list option"
  playlists :: "playlist list option"
  likes :: "(string \<rightharpoonup> string list) option"
  followers :: "(string \<rightharpoonup> string list) option"
  recentlyPlayed :: "string list option"
  nextIds :: "nextIds option"

text \<open>
  The item stored under \<open>META_KEY\<close> in localStorage is a text. The model keeps what
  \<open>loadMeta\<close> can observe of it: the empty text (falsy, like a missing item), a text
  that \<open>JSON.parse\<close> rejects with a SyntaxError, the text \<open>null\<close>, or the text of a
  JSON object, kept as the document it denotes (\<open>JSON.parse\<close> after
  \<open>JSON.stringify\<close> gives the document back). A missing item is \<open>None\<close>.
  Texts that denote a JSON scalar or array are outside the model.
\<close>

datatype raw = EmptyText | Malformed | JsonNull | JsonDoc meta

type_synonym blob = "nat list"

record audio =
  src :: "blob option"

record player =
  queue :: "string list"
  index :: int
  playing :: bool
  audioEl :: "audio option"
  currentSongId :: "string option"
  seekUpdating :: bool

text \<open>
  The application state: the global \<open>state\<close> object of the source (its \<open>route\<close> and
  \<open>routeParam\<close> fields, used by rendering only, are left out), the two stores it
  works on (the localStorage item and the IndexedDB object store \<open>assets\<close>), and the
  messages shown by \<open>toast\<close>, in order.
\<close>

record app =
  meta :: meta
  currentUser :: "user option"
  player :: player
  localStorage :: "raw option"
  assets :: "string \<rightharpoonup> blob"
  toasts :: "string list"

type_synonym 'a result = "(error + 'a) \<times> app"

section \<open>localStorage metadata helpers\<close>

definition defaultMeta :: meta where
  "defaultMeta =
     \<lparr>users = Some [], songs = Some [], albums = Some [], playlists = Some [],
      likes = Some Map.empty, followers = Some Map.empty, recentlyPlayed = Some [],
      nextIds = Some \<lparr>nid_song = 1, nid_album = 1, nid_playlist = 1, nid_user = 1\<rparr>\<rparr>"

text \<open>\<open>saveMeta\<close>: \<open>localStorage.setItem(META_KEY, JSON.stringify(meta))\<close>.\<close>

definition saveMeta :: "meta \<Rightarrow> raw option \<Rightarrow> raw option" where
  "saveMeta m ls = Some (JsonDoc m)"

text \<open>The six presence checks of \<open>loadMeta\<close> ("Basic validation & migrations"), in the
  order of the source.\<close>

definition migrate :: "meta \<Rightarrow> meta" where
  "migrate parsed =
     (let parsed = (if users parsed = None then parsed\<lparr>users := Some []\<rparr> else parsed);
          parsed = (if songs parsed = None then parsed\<lparr>songs := Some []\<rparr> else parsed);
          parsed = (if playlists parsed = None then parsed\<lparr>playlists := Some []\<rparr> else parsed);
          parsed = (if albums parsed = None then parsed\<lparr>albums := Some []\<rparr> else parsed);
          parsed = (if likes parsed = None then parsed\<lparr>likes := Some Map.empty\<rparr> else parsed);
          parsed = (if followers parsed = None then parsed\<lparr>followers := Some Map.empty\<rparr> else parsed)
      in parsed)"

text \<open>
  \<open>loadMeta\<close> returns the document and the localStorage item it leaves behind. A
  missing item and the empty text take the early return \<open>if (!raw) return defaultMeta()\<close>;
  a SyntaxError of \<open>JSON.parse\<close> and the TypeError of \<open>parsed.users\<close> on \<open>null\<close> reach
  the \<open>catch\<close> block, which saves the default document.
\<close>

definition loadMeta :: "raw option \<Rightarrow> meta \<times> raw option" where
  "loadMeta ls =
     (case ls of
        None \<Rightarrow> (defaultMeta, ls)
      | Some EmptyText \<Rightarrow> (defaultMeta, ls)
      | Some Malformed \<Rightarrow> (let m = defaultMeta in (m, saveMeta m ls))
      | Some JsonNull \<Rightarrow> (let m = defaultMeta in (m, saveMeta m ls))
      | Some (JsonDoc parsed) \<Rightarrow> (migrate parsed, ls))"

section \<open>Utilities\<close>

text \<open>\<open>toast\<close> shows a message; the model records it.\<close>

definition toast :: "string \<Rightarrow> app \<Rightarrow> app" where
  "toast msg s = s\<lparr>toasts := toasts s @ [msg]\<rparr>"

text \<open>\<open>Array.prototype.indexOf\<close>: the first position of the element, \<open>-1\<close> when it
  does not occur.\<close>

fun indexOf :: "'a list \<Rightarrow> 'a \<Rightarrow> int" where
  "indexOf [] x = - 1"
| "indexOf (y # ys) x =
     (if y = x then 0 else (let i = indexOf ys x in if i < 0 then - 1 else i + 1))"

text \<open>\<open>arr.splice(idx, 1)\<close> for an index in range.\<close>

definition splice1 :: "nat \<Rightarrow> 'a list \<Rightarrow> 'a list" where
  "splice1 i xs = take i xs @ drop (Suc i) xs"

text \<open>The remainder operator \<open>%\<close> of JavaScript truncates: the sign of the result is
  the sign of the dividend.\<close>

definition js_rem :: "int \<Rightarrow> int \<Rightarrow> int" where
  "js_rem a b = sgn a * (\<bar>a\<bar> mod \<bar>b\<bar>)"

text \<open>\<open>q[idx]\<close>: \<open>undefined\<close> (here \<open>None\<close>) out of range.\<close>

definition js_nth :: "'a list \<Rightarrow> int \<Rightarrow> 'a option" where
  "js_nth q i = (if 0 \<le> i \<and> i < int (length q) then Some (q ! nat i) else None)"

section \<open>Bootstrap: ensure superAdmin\<close>

text \<open>\<open>Date.now()\<close> is the parameter \<open>now\<close>.\<close>

definition ensureSuperAdmin :: "int \<Rightarrow> app \<Rightarrow> unit result" where
  "ensureSuperAdmin now s =
     (let m = meta s in
      case users m of
        None \<Rightarrow> (Inl TypeError, s)
      | Some us \<Rightarrow>
          (case find (\<lambda>u. username u = ''RankRates'') us of
             Some found \<Rightarrow> (Inr (), s)
           | None \<Rightarrow>
               (case nextIds m of
                  None \<Rightarrow> (Inl TypeError, s)
                | Some nx \<Rightarrow>
                    (let uid = nid_user nx;
                         m = m\<lparr>nextIds := Some (nx\<lparr>nid_user := uid + 1\<rparr>)\<rparr>;
                         su = \<lparr>user_id = uid, username = ''RankRates'', password = ''Rank1250'',
                               displayName = ''RankRates'', bio = ''Super admin'',
                               verified = True, superAdmin = True, imageAssetId = None,
                               createdAt = now\<rparr>;
                         m = m\<lparr>users := Some (us @ [su])\<rparr>;
                         s = s\<lparr>meta := m, localStorage := saveMeta m (localStorage s)\<rparr>
                     in (Inr (), toast ''SuperAdmin created: RankRates'' s)))))"

section \<open>Auth, users, follow/unfollow\<close>

text \<open>The result objects \<open>{ok:false, msg}\<close> and \<open>{ok:true, user}\<close>.\<close>

datatype outcome = Failed string | Ok user

text \<open>\<open>displayName||username\<close>: the empty display name is falsy.\<close>

definition registerUser :: "string \<Rightarrow> string \<Rightarrow> string \<Rightarrow> int \<Rightarrow> app \<Rightarrow> outcome result" where
  "registerUser un pw dn now s =
     (let m = meta s in
      case users m of
        None \<Rightarrow> (Inl TypeError, s)
      | Some us \<Rightarrow>
          if find (\<lambda>u. username u = un) us \<noteq> None
          then (Inr (Failed ''Username exists''), s)
          else
            (case nextIds m of
               None \<Rightarrow> (Inl TypeError, s)
             | Some nx \<Rightarrow>
                 (let uid = nid_user nx;
                      m = m\<lparr>nextIds := Some (nx\<lparr>nid_user := uid + 1\<rparr>)\<rparr>;
                      u = \<lparr>user_id = uid, username = un, password = pw,
                           displayName = (if dn = [] then un else dn), bio = [],
                           verified = False, superAdmin = False, imageAssetId = None,
                           createdAt = now\<rparr>;
                      m = m\<lparr>users := Some (us @ [u])\<rparr>;
                      s = s\<lparr>meta := m, localStorage := saveMeta m (localStorage s)\<rparr>
                  in (Inr (Ok u), s))))"

text \<open>\<open>renderAuthArea\<close> only redraws; \<open>state.currentUser\<close> refers to the user object
  found. Its \<open>username\<close>, the only field read through this reference below, is never
  assigned after creation, so the model keeps a copy.\<close>

definition loginUser :: "string \<Rightarrow> string \<Rightarrow> app \<Rightarrow> outcome result" where
  "loginUser un pw s =
     (case users (meta s) of
        None \<Rightarrow> (Inl TypeError, s)
      | Some us \<Rightarrow>
          (case find (\<lambda>u. username u = un \<and> password u = pw) us of
             None \<Rightarrow> (Inr (Failed ''Invalid credentials''), s)
           | Some u \<Rightarrow>
               (Inr (Ok u),
                toast (''Signed in as '' @ displayName u) (s\<lparr>currentUser := Some u\<rparr>))))"

text \<open>
  \<open>m.followers\<close> is a plain object, and the map of the model holds its own properties.
  Reading \<open>m.followers[targetUsername]\<close> for a name that is not an own property gives
  \<open>undefined\<close>, unless the name is a property of \<open>Object.prototype\<close>: then it gives the
  inherited function or object, which is truthy and is not an array.
\<close>

definition objectPrototypeKeys :: "string list" where
  "objectPrototypeKeys =
     [''constructor'', ''__defineGetter__'', ''__defineSetter__'', ''hasOwnProperty'',
      ''__lookupGetter__'', ''__lookupSetter__'', ''isPrototypeOf'',
      ''propertyIsEnumerable'', ''toString'', ''valueOf'', ''__proto__'',
      ''toLocaleString'']"

datatype 'a js_prop = Undefined | Own 'a | Inherited

definition js_get :: "(string \<rightharpoonup> 'a) \<Rightarrow> string \<Rightarrow> 'a js_prop" where
  "js_get obj k =
     (case obj k of
        Some v \<Rightarrow> Own v
      | None \<Rightarrow> if k \<in> set objectPrototypeKeys then Inherited else Undefined)"

text \<open>In \<open>followUser\<close>, an inherited value passes the check \<open>!m.followers[targetUsername]\<close>
  and \<open>arr.includes\<close> then throws a TypeError, before anything is assigned or saved.\<close>

definition followUser :: "string \<Rightarrow> app \<Rightarrow> unit result" where
  "followUser targetUsername s =
     (case currentUser s of
        None \<Rightarrow> (Inr (), toast ''Login first'' s)
      | Some cu \<Rightarrow>
          (let m = meta s in
           case followers m of
             None \<Rightarrow> (Inl TypeError, s)
           | Some f \<Rightarrow>
               (let f = (if js_get f targetUsername = Undefined
                         then f(targetUsername \<mapsto> []) else f)
                in case js_get f targetUsername of
                     Own arr \<Rightarrow>
                       (let arr = (if username cu \<in> set arr then arr
                                   else arr @ [username cu]);
                            m = m\<lparr>followers := Some (f(targetUsername \<mapsto> arr))\<rparr>
                        in (Inr (),
                            s\<lparr>meta := m, localStorage := saveMeta m (localStorage s)\<rparr>))
                   | Inherited \<Rightarrow> (Inl TypeError, s)
                   | Undefined \<Rightarrow> (Inl TypeError, s))))"

text \<open>In \<open>unfollowUser\<close>, \<open>m.followers[targetUsername] || []\<close> is the inherited value for
  such a name, and \<open>arr.indexOf\<close> throws a TypeError, before anything is assigned or
  saved.\<close>

definition unfollowUser :: "string \<Rightarrow> app \<Rightarrow> unit result" where
  "unfollowUser targetUsername s =
     (case currentUser s of
        None \<Rightarrow> (Inr (), toast ''Login first'' s)
      | Some cu \<Rightarrow>
          (let m = meta s in
           case followers m of
             None \<Rightarrow> (Inl TypeError, s)
           | Some f \<Rightarrow>
               (case js_get f targetUsername of
                  Inherited \<Rightarrow> (Inl TypeError, s)
                | got \<Rightarrow>
                    (let arr = (case got of Own a \<Rightarrow> a | _ \<Rightarrow> []);
                         idx = indexOf arr (username cu);
                         arr = (if idx \<ge> 0 then splice1 (nat idx) arr else arr);
                         m = m\<lparr>followers := Some (f(targetUsername \<mapsto> arr))\<rparr>
                     in (Inr (),
                         s\<lparr>meta := m, localStorage := saveMeta m (localStorage s)\<rparr>)))))"

text \<open>The follower set of a user, as the profile page reads it:
  \<open>state.meta.followers[username] || []\<close>. There is none (\<open>None\<close>) when the read
  gives no array: the \<open>followers\<close> field is absent, or the value is inherited from
  \<open>Object.prototype\<close>.\<close>

definition followersOf :: "app \<Rightarrow> string \<Rightarrow> string set option" where
  "followersOf s t =
     (case followers (meta s) of
        None \<Rightarrow> None
      | Some f \<Rightarrow>
          (case js_get f t of
             Undefined \<Rightarrow> Some {}
           | Own arr \<Rightarrow> Some (set arr)
           | Inherited \<Rightarrow> None))"

section \<open>Player engine\<close>

text \<open>\<open>while (rp.length>50) rp.pop()\<close>.\<close>

function popWhile :: "'a list \<Rightarrow> 'a list" where
  "popWhile rp = (if length rp > 50 then popWhile (butlast rp) else rp)"
  by pat_completeness auto
termination
  by (relation "measure length") auto

declare popWhile.simps [simp del]

text \<open>\<open>Array.from(new Set(rp))\<close>: the elements are added to the set one by one, and a
  set lists its elements in the order of their first insertion.\<close>

definition setAdd :: "'a list \<Rightarrow> 'a \<Rightarrow> 'a list" where
  "setAdd acc x = (if x \<in> set acc then acc else acc @ [x])"

definition fromSet :: "'a list \<Rightarrow> 'a list" where
  "fromSet rp = foldl setAdd [] rp"

text \<open>"mark recently played": \<open>rp.unshift(songId)\<close>, the \<open>while\<close> loop, the set.\<close>

definition markRecentlyPlayed :: "string \<Rightarrow> string list option \<Rightarrow> string list" where
  "markRecentlyPlayed songId rpo =
     (let rp = (case rpo of None \<Rightarrow> [] | Some rp \<Rightarrow> rp);
          rp = songId # rp;
          rp = popWhile rp
      in fromSet rp)"

text \<open>
  \<open>playSong\<close> starts an asynchronous body; the model runs the body to its end within
  the call, so calls do not overlap. The blob store answers every \<open>idbGet\<close> (with the
  blob, or with \<open>null\<close>), and the outcome of \<open>audio.play()\<close> is the parameter \<open>hw\<close>;
  a missing audio element and a rejected \<open>play()\<close> both end in the \<open>catch\<close> block.
  \<open>songId\<close> is \<open>None\<close> for \<open>undefined\<close>, which no song id equals; \<open>contextQueue\<close> is \<open>None\<close> for the default \<open>null\<close>. The page elements that
  \<open>updatePlayerUI\<close> writes to are taken to exist.
\<close>

datatype play_result = Resolved | Rejected

definition playSong :: "string option \<Rightarrow> string list option \<Rightarrow> play_result \<Rightarrow> app \<Rightarrow> unit result" where
  "playSong songId contextQueue hw s =
     (case songs (meta s) of
        None \<Rightarrow> (Inl TypeError, s)
      | Some sgs \<Rightarrow>
          (case find (\<lambda>sg. Some (song_id sg) = songId) sgs of
             None \<Rightarrow> (Inr (), toast ''Song missing'' s)
           | Some sg \<Rightarrow>
               (case assets s (assetId sg) of
                  None \<Rightarrow> (Inr (), toast ''Audio blob missing'' s)
                | Some blob \<Rightarrow>
                    (case audioEl (player s) of
                       None \<Rightarrow> (Inr (), toast ''Playback error'' s)
                     | Some a \<Rightarrow>
                         (let s = s\<lparr>player := (player s)\<lparr>audioEl := Some (a\<lparr>src := Some blob\<rparr>)\<rparr>\<rparr>
                          in case hw of
                               Rejected \<Rightarrow> (Inr (), toast ''Playback error'' s)
                             | Resolved \<Rightarrow>
                                 (let p = (player s)\<lparr>playing := True, currentSongId := songId\<rparr>;
                                      p = (case contextQueue of Some q \<Rightarrow> p\<lparr>queue := q\<rparr> | None \<Rightarrow> p);
                                      p = p\<lparr>index := (if indexOf (queue p) (song_id sg) \<ge> 0
                                                       then indexOf (queue p) (song_id sg) else 0)\<rparr>;
                                      m = (meta s)\<lparr>recentlyPlayed :=
                                            Some (markRecentlyPlayed (song_id sg) (recentlyPlayed (meta s)))\<rparr>
                                  in (Inr (), s\<lparr>player := p, meta := m,
                                                localStorage := saveMeta m (localStorage s)\<rparr>)))))))"

definition playNext :: "play_result \<Rightarrow> app \<Rightarrow> unit result" where
  "playNext hw s =
     (let q = queue (player s); idx = index (player s) in
      if length q = 0 then (Inr (), s)
      else (let idx = js_rem (idx + 1) (int (length q));
                s = s\<lparr>player := (player s)\<lparr>index := idx\<rparr>\<rparr>
            in playSong (js_nth q idx) (Some q) hw s))"

definition playPrev :: "play_result \<Rightarrow> app \<Rightarrow> unit result" where
  "playPrev hw s =
     (let q = queue (player s); idx = index (player s) in
      if length q = 0 then (Inr (), s)
      else (let idx = js_rem (idx - 1 + int (length q)) (int (length q));
                s = s\<lparr>player := (player s)\<lparr>index := idx\<rparr>\<rparr>
            in playSong (js_nth q idx) (Some q) hw s))"

text \<open>A sequence of \<open>playSong\<close> calls, each with its arguments and the outcome of the
  hardware.\<close>

fun playAll :: "(string option \<times> string list option \<times> play_result) list \<Rightarrow> app \<Rightarrow> app" where
  "playAll [] s = s"
| "playAll ((songId, contextQueue, hw) # calls) s =
     playAll calls (snd (playSong songId contextQueue hw s))"

section \<open>Start of the application\<close>

text \<open>The initial \<open>state\<close> object (\<open>meta: loadMeta()\<close>), over the localStorage item and
  the blob store found at start, and \<open>initPlayer\<close> as far as the state goes: it stores
  the page's audio element, taken to exist.\<close>

definition initialState :: "raw option \<Rightarrow> (string \<rightharpoonup> blob) \<Rightarrow> app" where
  "initialState ls db =
     \<lparr>meta = fst (loadMeta ls), currentUser = None,
      player = \<lparr>queue = [], index = 0, playing = False, audioEl = None,
                currentSongId = None, seekUpdating = False\<rparr>,
      localStorage = snd (loadMeta ls), assets = db, toasts = []\<rparr>"

definition initPlayer :: "app \<Rightarrow> app" where
  "initPlayer s = s\<lparr>player := (player s)\<lparr>audioEl := Some \<lparr>src = None\<rparr>\<rparr>\<rparr>"

section \<open>Notions used in the properties\<close>

text \<open>The specification's order of the RecentlyPlayed update: prepend, dedupe, cap at 50.
  This definition follows the specification's words, not the source.\<close>

definition markRecentlyPlayed_spec :: "string \<Rightarrow> string list option \<Rightarrow> string list" where
  "markRecentlyPlayed_spec songId rpo =
     take 50 (fromSet (songId # (case rpo of None \<Rightarrow> [] | Some rp \<Rightarrow> rp)))"

text \<open>The RecentlyPlayed invariant of the data model; an absent list is read as the empty
  one (\<open>state.meta.recentlyPlayed || []\<close>).\<close>

definition recentOk :: "meta \<Rightarrow> bool" where
  "recentOk m =
     (case recentlyPlayed m of None \<Rightarrow> True | Some rp \<Rightarrow> length rp \<le> 50 \<and> distinct rp)"

text \<open>A song can be played: it is in the Song collection, its audio blob is in the blob
  store, and the audio element is there.\<close>

definition playable :: "string \<Rightarrow> app \<Rightarrow> bool" where
  "playable sid s =
     (case songs (meta s) of
        None \<Rightarrow> False
      | Some sgs \<Rightarrow>
          (case find (\<lambda>sg. song_id sg = sid) sgs of
             None \<Rightarrow> False
           | Some sg \<Rightarrow> assets s (assetId sg) \<noteq> None \<and> audioEl (player s) \<noteq> None))"

text \<open>The two failures of \<open>playSong\<close>: no song of the Song collection has the id, or
  the song found has no audio blob in the blob store.\<close>

definition songMissing :: "string option \<Rightarrow> app \<Rightarrow> bool" where
  "songMissing songId s =
     (case songs (meta s) of
        None \<Rightarrow> False
      | Some sgs \<Rightarrow> find (\<lambda>sg. Some (song_id sg) = songId) sgs = None)"

definition blobMissing :: "string option \<Rightarrow> app \<Rightarrow> bool" where
  "blobMissing songId s =
     (case songs (meta s) of
        None \<Rightarrow> False
      | Some sgs \<Rightarrow>
          (case find (\<lambda>sg. Some (song_id sg) = songId) sgs of
             None \<Rightarrow> False
           | Some sg \<Rightarrow> assets s (assetId sg) = None))"

text \<open>The number of users with a given username.\<close>

definition countUsers :: "string \<Rightarrow> user list \<Rightarrow> nat" where
  "countUsers un us = length (filter (\<lambda>u. username u = un) us)"

section \<open>Example states\<close>

text \<open>A state as the bootstrap of a fresh profile leaves it: the super admin, the demo
  user and the demo track with its audio blob.\<close>

definition superUser :: user where
  "superUser =
     \<lparr>user_id = 1, username = ''RankRates'', password = ''Rank1250'',
      displayName = ''RankRates'', bio = ''Super admin'', verified = True,
      superAdmin = True, imageAssetId = None, createdAt = 0\<rparr>"

definition alice :: user where
  "alice =
     \<lparr>user_id = 2, username = ''alice'', password = ''alice'', displayName = ''Alice'',
      bio = ''Demo user'', verified = True, superAdmin = False, imageAssetId = None,
      createdAt = 0\<rparr>"

definition demoSong :: song where
  "demoSong =
     \<lparr>song_id = ''song_1'', title = ''Demo Track'', artist = ''RankRates'',
      albumId = ''album_1'', duration = 3, assetId = ''audio:song_1'',
      coverAssetId = ''image:album:album_1'', genre = ''Electronic'',
      language = ''English'', explicit = False, uploadedBy = ''RankRates''\<rparr>"

definition demoMeta :: meta where
  "demoMeta =
     \<lparr>users = Some [superUser, alice], songs = Some [demoSong], albums = Some [],
      playlists = Some [], likes = Some Map.empty, followers = Some Map.empty,
      recentlyPlayed = Some [],
      nextIds = Some \<lparr>nid_song = 2, nid_album = 2, nid_playlist = 1, nid_user = 3\<rparr>\<rparr>"

definition demoState :: app where
  "demoState =
     \<lparr>meta = demoMeta, currentUser = None,
      player = \<lparr>queue = [], index = 0, playing = False, audioEl = Some \<lparr>src = None\<rparr>,
                currentSongId = None, seekUpdating = False\<rparr>,
      localStorage = Some (JsonDoc demoMeta),
      assets = [''audio:song_1'' \<mapsto> [82, 73, 70, 70]], toasts = []\<rparr>"

text \<open>The same state with alice signed in.\<close>

definition aliceState :: app where
  "aliceState = demoState\<lparr>currentUser := Some alice\<rparr>"

text \<open>A full RecentlyPlayed list: fifty different song ids, \<open>song_1\<close> the most recent.\<close>

definition fullRecent :: "string list" where
  "fullRecent =
     [''song_1'', ''song_2'', ''song_3'', ''song_4'', ''song_5'', ''song_6'',
      ''song_7'', ''song_8'', ''song_9'', ''song_10'', ''song_11'', ''song_12'',
      ''song_13'', ''song_14'', ''song_15'', ''song_16'', ''song_17'', ''song_18'',
      ''song_19'', ''song_20'', ''song_21'', ''song_22'', ''song_23'', ''song_24'',
      ''song_25'', ''song_26'', ''song_27'', ''song_28'', ''song_29'', ''song_30'',
      ''song_31'', ''song_32'', ''song_33'', ''song_34'', ''song_35'', ''song_36'',
      ''song_37'', ''song_38'', ''song_39'', ''song_40'', ''song_41'', ''song_42'',
      ''song_43'', ''song_44'', ''song_45'', ''song_46'', ''song_47'', ''song_48'',
      ''song_49'', ''song_50'']"

definition fullState :: app where
  "fullState = demoState\<lparr>meta := demoMeta\<lparr>recentlyPlayed := Some fullRecent\<rparr>\<rparr>"

text \<open>A stored document in which the name \<open>RankRates\<close> belongs to an ordinary user.\<close>

definition plainRankRates :: user where
  "plainRankRates =
     \<lparr>user_id = 1, username = ''RankRates'', password = ''secret'',
      displayName = ''Rank'', bio = [], verified = False, superAdmin = False,
      imageAssetId = None, createdAt = 0\<rparr>"

definition plainState :: app where
  "plainState = demoState\<lparr>meta := demoMeta\<lparr>users := Some [plainRankRates]\<rparr>\<rparr>"

text \<open>A state with a queue of three songs and the cursor on the last; only \<open>song_1\<close>
  is in the Song collection.\<close>

definition queueState :: app where
  "queueState =
     demoState\<lparr>player := (player demoState)\<lparr>queue := [''song_1'', ''song_7'', ''song_8''],
                                              index := 2\<rparr>\<rparr>"

text \<open>Two older stored documents: the text \<open>{}\<close>, and a document that has its users
  and id counters but none of the later collections.\<close>

definition emptyDoc :: meta where
  "emptyDoc =
     \<lparr>users = None, songs = None, albums = None, playlists = None, likes = None,
      followers = None, recentlyPlayed = None, nextIds = None\<rparr>"

definition olderDoc :: meta where
  "olderDoc =
     emptyDoc\<lparr>users := Some [superUser],
              nextIds := Some \<lparr>nid_song = 1, nid_album = 1, nid_playlist = 1, nid_user = 2\<rparr>\<rparr>"

section \<open>Loading the metadata document\<close>

lemma migrate_defaultMeta: "migrate defaultMeta = defaultMeta"
  by (simp add: migrate_def defaultMeta_def)

text \<open>
  C1, as the code has it. A missing item, the empty text, a text that does not parse and
  the text \<open>null\<close> all load as the default document, whose eight top-level fields are
  present. A stored document keeps its fields; of those it lacks, \<open>users\<close>, \<open>songs\<close>,
  \<open>albums\<close>, \<open>playlists\<close>, \<open>likes\<close> and \<open>followers\<close> are initialised to empty, and
  \<open>recentlyPlayed\<close> is returned as stored (its readers take an absent list as empty).
  Nothing is said here about \<open>nextIds\<close> of a stored document.
\<close>

theorem loadMeta_collections:
  "fst (loadMeta None) = defaultMeta
   \<and> fst (loadMeta (Some EmptyText)) = defaultMeta
   \<and> fst (loadMeta (Some Malformed)) = defaultMeta
   \<and> fst (loadMeta (Some JsonNull)) = defaultMeta
   \<and> users defaultMeta = Some [] \<and> songs defaultMeta = Some []
   \<and> albums defaultMeta = Some [] \<and> playlists defaultMeta = Some []
   \<and> likes defaultMeta = Some Map.empty \<and> followers defaultMeta = Some Map.empty
   \<and> recentlyPlayed defaultMeta = Some [] \<and> nextIds defaultMeta \<noteq> None
   \<and> (let m = fst (loadMeta (Some (JsonDoc parsed))) in
        users m = Some (case users parsed of None \<Rightarrow> [] | Some v \<Rightarrow> v)
      \<and> songs m = Some (case songs parsed of None \<Rightarrow> [] | Some v \<Rightarrow> v)
      \<and> albums m = Some (case albums parsed of None \<Rightarrow> [] | Some v \<Rightarrow> v)
      \<and> playlists m = Some (case playlists parsed of None \<Rightarrow> [] | Some v \<Rightarrow> v)
      \<and> likes m = Some (case likes parsed of None \<Rightarrow> Map.empty | Some v \<Rightarrow> v)
      \<and> followers m = Some (case followers parsed of None \<Rightarrow> Map.empty | Some v \<Rightarrow> v)
      \<and> recentlyPlayed m = recentlyPlayed parsed)"
  by (simp add: loadMeta_def migrate_def defaultMeta_def Let_def split: option.splits)

theorem loadMeta_collections_witness:
  "users (fst (loadMeta (Some (JsonDoc olderDoc)))) = Some [superUser]
   \<and> songs (fst (loadMeta (Some (JsonDoc olderDoc)))) = Some []
   \<and> albums (fst (loadMeta (Some (JsonDoc olderDoc)))) = Some []
   \<and> playlists (fst (loadMeta (Some (JsonDoc olderDoc)))) = Some []"
  using loadMeta_collections [of olderDoc]
  by (simp add: Let_def olderDoc_def emptyDoc_def)

text \<open>C1 as stated fails: the older document \<open>olderDoc\<close> has no \<open>recentlyPlayed\<close>,
  and the loaded document has none either.\<close>

theorem loadMeta_older_document_counterexample:
  "recentlyPlayed (fst (loadMeta (Some (JsonDoc olderDoc)))) = None"
  by (simp add: loadMeta_def migrate_def olderDoc_def emptyDoc_def)

text \<open>The id counters are not migrated either: the stored text \<open>{}\<close> loads without
  \<open>nextIds\<close>, and the bootstrap's \<open>ensureSuperAdmin\<close> then throws at \<open>m.nextIds.user\<close>.\<close>

lemma loadMeta_emptyDoc_nextIds:
  "nextIds (fst (loadMeta (Some (JsonDoc emptyDoc)))) = None
   \<and> fst (ensureSuperAdmin now (initialState (Some (JsonDoc emptyDoc)) db)) = Inl TypeError"
  by (simp add: loadMeta_def migrate_def emptyDoc_def ensureSuperAdmin_def initialState_def)

text \<open>
  C2, as the code has it. When the stored text does not parse, or is \<open>null\<close>, \<open>loadMeta\<close>
  returns the default document and has saved it; loading again then reads the saved
  default. When the item is missing or empty, \<open>loadMeta\<close> returns the default document
  and leaves localStorage as it found it.
\<close>

theorem loadMeta_self_heal:
  "loadMeta (Some Malformed) = (defaultMeta, Some (JsonDoc defaultMeta))
   \<and> loadMeta (Some JsonNull) = (defaultMeta, Some (JsonDoc defaultMeta))
   \<and> loadMeta (snd (loadMeta (Some Malformed))) = (defaultMeta, Some (JsonDoc defaultMeta))
   \<and> loadMeta None = (defaultMeta, None)
   \<and> loadMeta (Some EmptyText) = (defaultMeta, Some EmptyText)"
  by (simp add: loadMeta_def saveMeta_def migrate_defaultMeta)

text \<open>C2 as stated fails for the missing document: after \<open>loadMeta\<close> there is still no
  item in localStorage.\<close>

theorem loadMeta_missing_counterexample:
  "snd (loadMeta None) = None \<and> snd (loadMeta None) \<noteq> Some (JsonDoc defaultMeta)"
  by (simp add: loadMeta_def)

section \<open>Lists: the cap, the set, \<open>indexOf\<close>, \<open>splice\<close> and the remainder\<close>

lemma popWhile_take: "popWhile rp = take 50 rp"
proof (induction rp rule: popWhile.induct)
  case (1 rp)
  show ?case
  proof (cases "length rp > 50")
    case True
    then have "popWhile rp = popWhile (butlast rp)" by (subst popWhile.simps) simp
    also have "\<dots> = take 50 (butlast rp)" using True 1 by simp
    also have "\<dots> = take 50 rp" using True by (simp add: butlast_conv_take)
    finally show ?thesis .
  next
    case False
    then show ?thesis by (subst popWhile.simps) simp
  qed
qed

lemma foldl_setAdd_distinct: "distinct acc \<Longrightarrow> distinct (foldl setAdd acc xs)"
  by (induction xs arbitrary: acc) (auto simp: setAdd_def)

lemma foldl_setAdd_set: "set (foldl setAdd acc xs) = set acc \<union> set xs"
  by (induction xs arbitrary: acc) (auto simp: setAdd_def)

lemma foldl_setAdd_length: "length (foldl setAdd acc xs) \<le> length acc + length xs"
proof (induction xs arbitrary: acc)
  case Nil
  then show ?case by simp
next
  case (Cons x xs)
  have "length (setAdd acc x) \<le> Suc (length acc)" by (simp add: setAdd_def)
  with Cons[of "setAdd acc x"] show ?case by simp
qed

lemma foldl_setAdd_prefix: "\<exists>ys. foldl setAdd acc xs = acc @ ys"
proof (induction xs arbitrary: acc)
  case Nil
  then show ?case by simp
next
  case (Cons x xs)
  obtain ys where ys: "foldl setAdd (setAdd acc x) xs = setAdd acc x @ ys" using Cons by blast
  obtain zs where zs: "setAdd acc x = acc @ zs"
    by (cases "x \<in> set acc") (simp_all add: setAdd_def)
  have "foldl setAdd acc (x # xs) = acc @ (zs @ ys)" using ys zs by simp
  then show ?case by blast
qed

lemma fromSet_distinct: "distinct (fromSet rp)"
  by (simp add: fromSet_def foldl_setAdd_distinct)

lemma fromSet_set: "set (fromSet rp) = set rp"
  by (simp add: fromSet_def foldl_setAdd_set)

lemma fromSet_length: "length (fromSet rp) \<le> length rp"
  using foldl_setAdd_length[of "[]" rp] by (simp add: fromSet_def)

lemma fromSet_hd: "\<exists>ys. fromSet (x # rp) = x # ys"
  using foldl_setAdd_prefix[of "[x]" rp] by (simp add: fromSet_def setAdd_def)

lemma foldl_setAdd_fresh:
  "distinct xs \<Longrightarrow> set xs \<inter> set acc = {} \<Longrightarrow> foldl setAdd acc xs = acc @ xs"
proof (induction xs arbitrary: acc)
  case Nil
  then show ?case by simp
next
  case (Cons x xs)
  have a: "setAdd acc x = acc @ [x]" using Cons.prems by (simp add: setAdd_def)
  have "foldl setAdd (acc @ [x]) xs = (acc @ [x]) @ xs"
    using Cons.prems by (intro Cons.IH) auto
  then show ?case using a by simp
qed

lemma fromSet_distinct_id: "distinct rp \<Longrightarrow> fromSet rp = rp"
  using foldl_setAdd_fresh[of rp "[]"] by (simp add: fromSet_def)

lemma indexOf_absent: "x \<notin> set q \<Longrightarrow> indexOf q x = - 1"
  by (induction q) (auto simp: Let_def)

lemma indexOf_nonneg: "x \<in> set q \<Longrightarrow> 0 \<le> indexOf q x"
  by (induction q) (auto simp: Let_def)

lemma indexOf_ge: "- 1 \<le> indexOf q x"
  by (induction q) (auto simp: Let_def)

lemma indexOf_first:
  "x \<in> set q \<Longrightarrow> nat (indexOf q x) < length q \<and> q ! nat (indexOf q x) = x
     \<and> (\<forall>j < nat (indexOf q x). q ! j \<noteq> x)"
proof (induction q)
  case Nil
  then show ?case by simp
next
  case (Cons y ys)
  show ?case
  proof (cases "y = x")
    case True
    then show ?thesis by simp
  next
    case False
    then have mem: "x \<in> set ys" using Cons.prems by simp
    have nn: "0 \<le> indexOf ys x" using mem by (rule indexOf_nonneg)
    have eq: "nat (indexOf (y # ys) x) = Suc (nat (indexOf ys x))"
      using False nn by (simp add: Let_def nat_add_distrib)
    show ?thesis using Cons.IH[OF mem] False unfolding eq
      by (auto simp: less_Suc_eq_0_disj)
  qed
qed

lemma splice1_indexOf: "x \<in> set xs \<Longrightarrow> splice1 (nat (indexOf xs x)) xs = remove1 x xs"
proof (induction xs)
  case Nil
  then show ?case by simp
next
  case (Cons y ys)
  show ?case
  proof (cases "y = x")
    case True
    then show ?thesis by (simp add: splice1_def)
  next
    case False
    then have mem: "x \<in> set ys" using Cons.prems by simp
    have nn: "0 \<le> indexOf ys x" using mem by (rule indexOf_nonneg)
    have eq: "nat (indexOf (y # ys) x) = Suc (nat (indexOf ys x))"
      using False nn by (simp add: Let_def nat_add_distrib)
    show ?thesis using Cons.IH[OF mem] False unfolding eq by (simp add: splice1_def)
  qed
qed

lemma js_rem_nonneg: "0 \<le> a \<Longrightarrow> 0 < b \<Longrightarrow> js_rem a b = a mod b"
  by (cases "a = 0") (simp_all add: js_rem_def)

lemma js_rem_sign: "0 \<le> a \<Longrightarrow> 0 \<le> js_rem a b"
  by (cases "b = 0") (simp_all add: js_rem_def sgn_if)

lemma find_snoc:
  "find P (xs @ [y]) = (case find P xs of None \<Rightarrow> (if P y then Some y else None) | Some x \<Rightarrow> Some x)"
  by (induction xs) simp_all

lemma find_mem: "find P xs = Some x \<Longrightarrow> x \<in> set xs \<and> P x"
  by (induction xs) (auto split: if_splits)

section \<open>Playing a song\<close>

lemma markRecentlyPlayed_eq:
  "markRecentlyPlayed sid rpo = fromSet (take 50 (sid # (case rpo of None \<Rightarrow> [] | Some rp \<Rightarrow> rp)))"
  by (simp add: markRecentlyPlayed_def popWhile_take)

lemma markRecentlyPlayed_length: "length (markRecentlyPlayed sid rpo) \<le> 50"
proof -
  have "length (markRecentlyPlayed sid rpo)
        \<le> length (take 50 (sid # (case rpo of None \<Rightarrow> [] | Some rp \<Rightarrow> rp)))"
    unfolding markRecentlyPlayed_eq by (rule fromSet_length)
  then show ?thesis by simp
qed

lemma markRecentlyPlayed_distinct: "distinct (markRecentlyPlayed sid rpo)"
  unfolding markRecentlyPlayed_eq by (rule fromSet_distinct)

lemma markRecentlyPlayed_hd: "\<exists>ys. markRecentlyPlayed sid rpo = sid # ys"
  unfolding markRecentlyPlayed_eq using fromSet_hd by (simp add: take_Cons')

text \<open>What a successful call does to the state.\<close>

lemma playSong_success:
  assumes "playable sid s"
  shows "\<exists>sg blob a. songs (meta s) \<noteq> None \<and> find (\<lambda>sg. song_id sg = sid) (the (songs (meta s))) = Some sg
    \<and> assets s (assetId sg) = Some blob \<and> audioEl (player s) = Some a \<and> song_id sg = sid
    \<and> playSong (Some sid) cq Resolved s =
       (Inr (),
        s\<lparr>player := (player s)\<lparr>audioEl := Some (a\<lparr>src := Some blob\<rparr>), playing := True,
              currentSongId := Some sid,
              queue := (case cq of None \<Rightarrow> queue (player s) | Some q \<Rightarrow> q),
              index := (let q = (case cq of None \<Rightarrow> queue (player s) | Some q \<Rightarrow> q)
                        in if indexOf q sid \<ge> 0 then indexOf q sid else 0)\<rparr>,
           meta := (meta s)\<lparr>recentlyPlayed := Some (markRecentlyPlayed sid (recentlyPlayed (meta s)))\<rparr>,
           localStorage := Some (JsonDoc ((meta s)\<lparr>recentlyPlayed := Some (markRecentlyPlayed sid (recentlyPlayed (meta s)))\<rparr>))\<rparr>)"
proof -
  from assms obtain sgs sg blob a where
    a: "songs (meta s) = Some sgs" "find (\<lambda>sg. song_id sg = sid) sgs = Some sg"
       "assets s (assetId sg) = Some blob" "audioEl (player s) = Some a"
    by (auto simp: playable_def split: option.splits)
  have sid: "song_id sg = sid" using a(2) by (auto simp: find_Some_iff)
  show ?thesis using a sid
    by (cases cq) (simp_all add: playSong_def saveMeta_def Let_def)
qed

lemma playSong_recentOk: "recentOk (meta s) \<Longrightarrow> recentOk (meta (snd (playSong songId cq hw s)))"
  by (auto simp: playSong_def toast_def recentOk_def Let_def markRecentlyPlayed_length
      markRecentlyPlayed_distinct split: option.splits play_result.splits)

lemma playAll_recentOk: "recentOk (meta s) \<Longrightarrow> recentOk (meta (playAll calls s))"
proof (induction calls arbitrary: s)
  case Nil
  then show ?case by simp
next
  case (Cons c calls)
  obtain songId cq hw where c: "c = (songId, cq, hw)" by (cases c)
  show ?case unfolding c using Cons.prems by (simp add: Cons.IH playSong_recentOk)
qed

lemma demo_playable: "playable ''song_1'' demoState"
  by (simp add: playable_def demoState_def demoMeta_def demoSong_def)

text \<open>
  C3, as the code has it. From a state whose RecentlyPlayed list has at most 50 entries
  and no duplicate, every sequence of \<open>playSong\<close> calls, whatever the songs, queues and
  hardware outcomes, leaves such a list. A call that plays its song leaves a list that
  starts with this song, has at most 50 entries and no duplicate, and is saved; the list
  is computed as prepend, cap at 50, then dedupe.
\<close>

theorem playSong_recentlyPlayed:
  "(recentOk (meta s) \<longrightarrow> recentOk (meta (playAll calls s)))
   \<and> (playable sid s \<longrightarrow>
        (let s' = snd (playSong (Some sid) cq Resolved s);
             old = (case recentlyPlayed (meta s) of None \<Rightarrow> [] | Some rp \<Rightarrow> rp)
         in \<exists>rest. recentlyPlayed (meta s') = Some (sid # rest)
              \<and> sid # rest = fromSet (take 50 (sid # old))
              \<and> length (sid # rest) \<le> 50 \<and> distinct (sid # rest)
              \<and> set (sid # rest) \<subseteq> insert sid (set old)
              \<and> localStorage s' = Some (JsonDoc (meta s'))))"
proof (intro conjI impI)
  assume "recentOk (meta s)"
  then show "recentOk (meta (playAll calls s))" by (rule playAll_recentOk)
next
  assume p: "playable sid s"
  define old where "old = (case recentlyPlayed (meta s) of None \<Rightarrow> [] | Some rp \<Rightarrow> rp)"
  define new where "new = markRecentlyPlayed sid (recentlyPlayed (meta s))"
  obtain rest where rest: "new = sid # rest"
    using markRecentlyPlayed_hd unfolding new_def by blast
  have eq: "new = fromSet (take 50 (sid # old))"
    unfolding new_def old_def by (rule markRecentlyPlayed_eq)
  have len: "length new \<le> 50" unfolding new_def by (rule markRecentlyPlayed_length)
  have dist: "distinct new" unfolding new_def by (rule markRecentlyPlayed_distinct)
  have sub: "set new \<subseteq> insert sid (set old)"
    unfolding eq fromSet_set using set_take_subset[of 50 "sid # old"] by auto
  from playSong_success[OF p, of cq]
  have rp: "recentlyPlayed (meta (snd (playSong (Some sid) cq Resolved s))) = Some new"
    and ls: "localStorage (snd (playSong (Some sid) cq Resolved s))
             = Some (JsonDoc (meta (snd (playSong (Some sid) cq Resolved s))))"
    unfolding new_def by auto
  show "let s' = snd (playSong (Some sid) cq Resolved s);
            old = (case recentlyPlayed (meta s) of None \<Rightarrow> [] | Some rp \<Rightarrow> rp)
        in \<exists>rest. recentlyPlayed (meta s') = Some (sid # rest)
             \<and> sid # rest = fromSet (take 50 (sid # old))
             \<and> length (sid # rest) \<le> 50 \<and> distinct (sid # rest)
             \<and> set (sid # rest) \<subseteq> insert sid (set old)
             \<and> localStorage s' = Some (JsonDoc (meta s'))"
    unfolding Let_def old_def[symmetric]
    using rp ls eq len dist sub rest by (intro exI[of _ rest]) simp
qed

theorem playSong_recentlyPlayed_witness:
  "recentOk (meta demoState)
   \<and> recentOk (meta (playAll [(Some ''song_1'', None, Resolved), (Some ''song_1'', None, Rejected)] demoState))
   \<and> playable ''song_1'' demoState
   \<and> recentlyPlayed (meta (snd (playSong (Some ''song_1'') None Resolved demoState))) = Some [''song_1'']"
proof -
  have ok: "recentOk (meta demoState)"
    by (simp add: recentOk_def demoState_def demoMeta_def)
  have p: "playable ''song_1'' demoState"
    by (simp add: playable_def demoState_def demoMeta_def demoSong_def)
  have old: "recentlyPlayed (meta demoState) = Some []"
    by (simp add: demoState_def demoMeta_def)
  note t = playSong_recentlyPlayed [of demoState
      "[(Some ''song_1'', None, Resolved), (Some ''song_1'', None, Rejected)]" "''song_1''" None]
  from t ok have a: "recentOk (meta (playAll [(Some ''song_1'', None, Resolved), (Some ''song_1'', None, Rejected)] demoState))"
    by blast
  from t p old have b: "recentlyPlayed (meta (snd (playSong (Some ''song_1'') None Resolved demoState))) = Some [''song_1'']"
    by (auto simp: Let_def fromSet_def setAdd_def)
  show ?thesis using ok p a b by simp
qed

text \<open>C3 as stated fails in the order of the update. With a full list of fifty songs,
  playing the first of them again gives 49 entries in the code (the cap drops \<open>song_50\<close>
  before the duplicate is removed), and all fifty in the order prepend, dedupe, cap.\<close>

theorem markRecentlyPlayed_order_counterexample: "recentlyPlayed (meta (snd (playSong (Some ''song_1'') None Resolved fullState)))
     = Some (butlast fullRecent)
   \<and> markRecentlyPlayed_spec ''song_1'' (Some fullRecent) = fullRecent
   \<and> length (butlast fullRecent) = 49 \<and> length fullRecent = 50"
  by (simp add: playSong_def fullState_def demoState_def demoMeta_def demoSong_def saveMeta_def
      markRecentlyPlayed_eq markRecentlyPlayed_spec_def fullRecent_def fromSet_def setAdd_def Let_def)

text \<open>
  C4. When no song has the id, or the song found has no audio blob, \<open>playSong\<close> shows
  "Song missing" or "Audio blob missing" and changes nothing else: queue, index, current
  song, playing flag, RecentlyPlayed and localStorage are as before.
\<close>

theorem playSong_missing:
  "(songMissing songId s \<longrightarrow>
      playSong songId cq hw s = (Inr (), s\<lparr>toasts := toasts s @ [''Song missing'']\<rparr>))
   \<and> (blobMissing songId s \<longrightarrow>
      playSong songId cq hw s = (Inr (), s\<lparr>toasts := toasts s @ [''Audio blob missing'']\<rparr>))
   \<and> (songMissing songId s \<or> blobMissing songId s \<longrightarrow>
        (let s' = snd (playSong songId cq hw s)
         in queue (player s') = queue (player s) \<and> index (player s') = index (player s)
            \<and> currentSongId (player s') = currentSongId (player s)
            \<and> playing (player s') = playing (player s)
            \<and> player s' = player s
            \<and> recentlyPlayed (meta s') = recentlyPlayed (meta s) \<and> meta s' = meta s
            \<and> localStorage s' = localStorage s))"
  by (auto simp: songMissing_def blobMissing_def playSong_def toast_def Let_def
      split: option.splits)

theorem playSong_missing_witness:
  "songMissing (Some ''song_9'') demoState
   \<and> blobMissing (Some ''song_1'') (demoState\<lparr>assets := Map.empty\<rparr>)
   \<and> playSong (Some ''song_9'') (Some [''song_9'']) Resolved demoState
       = (Inr (), demoState\<lparr>toasts := [''Song missing'']\<rparr>)
   \<and> playSong (Some ''song_1'') (Some [''song_1'']) Resolved (demoState\<lparr>assets := Map.empty\<rparr>)
       = (Inr (), demoState\<lparr>assets := Map.empty, toasts := [''Audio blob missing'']\<rparr>)"
proof -
  have a: "songMissing (Some ''song_9'') demoState"
    by (simp add: songMissing_def demoState_def demoMeta_def demoSong_def)
  have b: "blobMissing (Some ''song_1'') (demoState\<lparr>assets := Map.empty\<rparr>)"
    by (simp add: blobMissing_def demoState_def demoMeta_def demoSong_def)
  have t: "toasts demoState = []" by (simp add: demoState_def)
  from a playSong_missing [of "Some ''song_9''" demoState "Some [''song_9'']" Resolved]
  have c: "playSong (Some ''song_9'') (Some [''song_9'']) Resolved demoState
       = (Inr (), demoState\<lparr>toasts := [''Song missing'']\<rparr>)"
    by (simp add: t)
  from b playSong_missing [of "Some ''song_1''" "demoState\<lparr>assets := Map.empty\<rparr>" "Some [''song_1'']" Resolved]
  have d: "playSong (Some ''song_1'') (Some [''song_1'']) Resolved (demoState\<lparr>assets := Map.empty\<rparr>)
       = (Inr (), demoState\<lparr>assets := Map.empty, toasts := [''Audio blob missing'']\<rparr>)"
    by (simp add: t)
  show ?thesis using a b c d by simp
qed

lemma songMissing_iff:
  "songMissing (Some sid) s = (\<exists>sgs. songs (meta s) = Some sgs \<and> sid \<notin> song_id ` set sgs)"
  by (auto simp: songMissing_def find_None_iff split: option.splits)

text \<open>
  C5, as the code has it. A call with a queue that plays its song replaces the queue by
  the one given; the index is the first position of the song in the new queue, and 0 when
  the song does not occur in it.
\<close>

theorem playSong_queue_index:
  "playable sid s \<Longrightarrow>
     (let p = player (snd (playSong (Some sid) (Some q) Resolved s))
      in queue p = q
         \<and> (sid \<in> set q \<longrightarrow>
              0 \<le> index p \<and> nat (index p) < length q \<and> q ! nat (index p) = sid
              \<and> (\<forall>j < nat (index p). q ! j \<noteq> sid))
         \<and> (sid \<notin> set q \<longrightarrow> index p = 0)
         \<and> currentSongId p = Some sid \<and> playing p)"
proof -
  assume p: "playable sid s"
  from playSong_success[OF p, of "Some q"]
  have q: "queue (player (snd (playSong (Some sid) (Some q) Resolved s))) = q"
    and i: "index (player (snd (playSong (Some sid) (Some q) Resolved s)))
            = (if indexOf q sid \<ge> 0 then indexOf q sid else 0)"
    and c: "currentSongId (player (snd (playSong (Some sid) (Some q) Resolved s))) = Some sid"
    and pl: "playing (player (snd (playSong (Some sid) (Some q) Resolved s)))"
    by (auto simp: Let_def)
  have inq: "sid \<in> set q \<Longrightarrow> 0 \<le> indexOf q sid \<and> nat (indexOf q sid) < length q
      \<and> q ! nat (indexOf q sid) = sid \<and> (\<forall>j < nat (indexOf q sid). q ! j \<noteq> sid)"
    using indexOf_first[of sid q] indexOf_nonneg[of sid q] by simp
  have notq: "sid \<notin> set q \<Longrightarrow> indexOf q sid = - 1" by (rule indexOf_absent)
  show ?thesis unfolding Let_def q i c using pl inq notq by auto
qed

theorem playSong_queue_index_witness:
  "playable ''song_1'' demoState
   \<and> queue (player (snd (playSong (Some ''song_1'') (Some [''song_7'', ''song_1'']) Resolved demoState)))
       = [''song_7'', ''song_1'']
   \<and> index (player (snd (playSong (Some ''song_1'') (Some [''song_7'', ''song_1'']) Resolved demoState))) = 1
   \<and> index (player (snd (playSong (Some ''song_1'') (Some [''song_7'']) Resolved demoState))) = 0"
proof -
  have p: "playable ''song_1'' demoState" by (rule demo_playable)
  from playSong_queue_index [OF p, of "[''song_7'', ''song_1'']"]
  have a: "queue (player (snd (playSong (Some ''song_1'') (Some [''song_7'', ''song_1'']) Resolved demoState)))
       = [''song_7'', ''song_1'']"
    and b: "index (player (snd (playSong (Some ''song_1'') (Some [''song_7'', ''song_1'']) Resolved demoState))) = 1"
    by (auto simp: Let_def less_Suc_eq_0_disj nat_eq_iff split: if_splits)
  from playSong_queue_index [OF p, of "[''song_7'']"]
  have c: "index (player (snd (playSong (Some ''song_1'') (Some [''song_7'']) Resolved demoState))) = 0"
    by (simp add: Let_def)
  show ?thesis using p a b c by simp
qed

text \<open>C5 as stated fails for a call that does not play: the song is missing, and the
  queue given is not taken.\<close>

theorem playSong_queue_counterexample:
  "queue (player (snd (playSong (Some ''song_9'') (Some [''song_9'']) Resolved demoState))) = []
   \<and> queue (player (snd (playSong (Some ''song_9'') (Some [''song_9'']) Resolved demoState)))
       \<noteq> [''song_9'']"
  by (simp add: playSong_def toast_def demoState_def demoMeta_def demoSong_def)

section \<open>Registration and login\<close>

lemma registerUser_Ok:
  assumes "registerUser un pw dn now s0 = (Inr (Ok u), s)"
  shows "\<exists>us0. users (meta s0) = Some us0 \<and> un \<notin> username ` set us0
           \<and> users (meta s) = Some (us0 @ [u]) \<and> username u = un \<and> password u = pw"
proof -
  from assms obtain us0 where us0: "users (meta s0) = Some us0"
    by (auto simp: registerUser_def Let_def split: option.splits if_splits)
  from assms us0 have nf: "find (\<lambda>u. username u = un) us0 = None"
    by (auto simp: registerUser_def Let_def split: option.splits if_splits)
  then have fresh: "un \<notin> username ` set us0" by (auto simp: find_None_iff)
  from assms us0 nf obtain nx where nx: "nextIds (meta s0) = Some nx"
    by (auto simp: registerUser_def Let_def split: option.splits if_splits)
  from assms us0 nf nx have "users (meta s) = Some (us0 @ [u]) \<and> username u = un \<and> password u = pw"
    by (auto simp: registerUser_def Let_def)
  with us0 fresh show ?thesis by blast
qed

text \<open>
  C6. With the users \<open>us\<close> stored, \<open>loginUser\<close> succeeds exactly when some user has
  this username and this password; it then returns such a user and makes it the current
  user, leaving the document and localStorage alone. Otherwise it returns
  "Invalid credentials" and the state is unchanged. After a registration of \<open>un\<close> with
  \<open>pw\<close>, logging in with this pair returns the registered user.
\<close>

theorem loginUser_exact:
  "users (meta s) = Some us \<Longrightarrow>
     ((\<exists>u \<in> set us. username u = un \<and> password u = pw) \<longrightarrow>
        (\<exists>u \<in> set us. username u = un \<and> password u = pw
           \<and> loginUser un pw s =
               (Inr (Ok u),
                s\<lparr>currentUser := Some u,
                   toasts := toasts s @ [''Signed in as '' @ displayName u]\<rparr>)))
   \<and> (\<not> (\<exists>u \<in> set us. username u = un \<and> password u = pw) \<longrightarrow>
        loginUser un pw s = (Inr (Failed ''Invalid credentials''), s))
   \<and> (\<forall>dn now s0 u. registerUser un pw dn now s0 = (Inr (Ok u), s) \<longrightarrow>
        fst (loginUser un pw s) = Inr (Ok u)
        \<and> currentUser (snd (loginUser un pw s)) = Some u
        \<and> meta (snd (loginUser un pw s)) = meta s
        \<and> localStorage (snd (loginUser un pw s)) = localStorage s)"
proof (intro conjI impI allI)
  assume us: "users (meta s) = Some us"
  {
    assume "\<exists>u \<in> set us. username u = un \<and> password u = pw"
    then have "find (\<lambda>u. username u = un \<and> password u = pw) us \<noteq> None"
      by (auto simp: find_None_iff)
    then obtain u where f: "find (\<lambda>u. username u = un \<and> password u = pw) us = Some u" by blast
    have m: "u \<in> set us \<and> username u = un \<and> password u = pw" using find_mem[OF f] by simp
    have "loginUser un pw s =
               (Inr (Ok u),
                s\<lparr>currentUser := Some u,
                   toasts := toasts s @ [''Signed in as '' @ displayName u]\<rparr>)"
      using us f by (simp add: loginUser_def toast_def)
    with m show "\<exists>u \<in> set us. username u = un \<and> password u = pw
           \<and> loginUser un pw s =
               (Inr (Ok u),
                s\<lparr>currentUser := Some u,
                   toasts := toasts s @ [''Signed in as '' @ displayName u]\<rparr>)"
      by blast
  }
  {
    assume "\<not> (\<exists>u \<in> set us. username u = un \<and> password u = pw)"
    then have "find (\<lambda>u. username u = un \<and> password u = pw) us = None"
      by (auto simp: find_None_iff)
    then show "loginUser un pw s = (Inr (Failed ''Invalid credentials''), s)"
      using us by (simp add: loginUser_def)
  }
  {
    fix dn now s0 u
    assume r: "registerUser un pw dn now s0 = (Inr (Ok u), s)"
    from registerUser_Ok[OF r] obtain us0 where
      a: "un \<notin> username ` set us0" "users (meta s) = Some (us0 @ [u])"
         "username u = un" "password u = pw"
      by blast
    have "find (\<lambda>u. username u = un \<and> password u = pw) us0 = None"
      using a(1) by (auto simp: find_None_iff)
    then have f: "find (\<lambda>u. username u = un \<and> password u = pw) (us0 @ [u]) = Some u"
      using a(3,4) by (simp add: find_snoc)
    have l: "loginUser un pw s =
               (Inr (Ok u),
                s\<lparr>currentUser := Some u,
                   toasts := toasts s @ [''Signed in as '' @ displayName u]\<rparr>)"
      using a(2) f by (simp add: loginUser_def toast_def)
    show "fst (loginUser un pw s) = Inr (Ok u)" by (simp add: l)
    show "currentUser (snd (loginUser un pw s)) = Some u" by (simp add: l)
    show "meta (snd (loginUser un pw s)) = meta s" by (simp add: l)
    show "localStorage (snd (loginUser un pw s)) = localStorage s" by (simp add: l)
  }
qed

theorem loginUser_exact_witness:
  "users (meta demoState) = Some [superUser, alice]
   \<and> loginUser ''alice'' ''alice'' demoState
       = (Inr (Ok alice), demoState\<lparr>currentUser := Some alice, toasts := [''Signed in as Alice'']\<rparr>)
   \<and> loginUser ''Alice'' ''alice'' demoState = (Inr (Failed ''Invalid credentials''), demoState)
   \<and> loginUser ''alice'' ''Rank1250'' demoState = (Inr (Failed ''Invalid credentials''), demoState)
   \<and> fst (loginUser ''bob'' ''pw'' (snd (registerUser ''bob'' ''pw'' ''Bob'' 5 demoState)))
       = Inr (Ok \<lparr>user_id = 3, username = ''bob'', password = ''pw'', displayName = ''Bob'',
                  bio = [], verified = False, superAdmin = False, imageAssetId = None,
                  createdAt = 5\<rparr>)"
proof -
  define bob where "bob = \<lparr>user_id = 3, username = ''bob'', password = ''pw'', displayName = ''Bob'',
                  bio = [], verified = False, superAdmin = False, imageAssetId = None,
                  createdAt = 5\<rparr>"
  define s where "s = snd (registerUser ''bob'' ''pw'' ''Bob'' 5 demoState)"
  have r: "registerUser ''bob'' ''pw'' ''Bob'' 5 demoState = (Inr (Ok bob), s)"
    unfolding s_def bob_def
    by (simp add: registerUser_def demoState_def demoMeta_def superUser_def alice_def Let_def)
  have usb: "users (meta s) = Some [superUser, alice, bob]"
    unfolding s_def bob_def
    by (simp add: registerUser_def demoState_def demoMeta_def superUser_def alice_def Let_def)
  from loginUser_exact [OF usb, of "''bob''" "''pw''"] r
  have d0: "fst (loginUser ''bob'' ''pw'' s) = Inr (Ok bob)" by blast
  have d: "fst (loginUser ''bob'' ''pw'' (snd (registerUser ''bob'' ''pw'' ''Bob'' 5 demoState)))
       = Inr (Ok \<lparr>user_id = 3, username = ''bob'', password = ''pw'', displayName = ''Bob'',
                  bio = [], verified = False, superAdmin = False, imageAssetId = None,
                  createdAt = 5\<rparr>)"
    using d0 unfolding s_def bob_def .
  have us: "users (meta demoState) = Some [superUser, alice]"
    by (simp add: demoState_def demoMeta_def)
  have t: "toasts demoState = []" by (simp add: demoState_def)
  from loginUser_exact [OF us, of "''alice''" "''alice''"]
  have a: "loginUser ''alice'' ''alice'' demoState
       = (Inr (Ok alice), demoState\<lparr>currentUser := Some alice, toasts := [''Signed in as Alice'']\<rparr>)"
    by (auto simp: t superUser_def alice_def)
  from loginUser_exact [OF us, of "''Alice''" "''alice''"]
  have b: "loginUser ''Alice'' ''alice'' demoState = (Inr (Failed ''Invalid credentials''), demoState)"
    by (simp add: superUser_def alice_def)
  from loginUser_exact [OF us, of "''alice''" "''Rank1250''"]
  have c: "loginUser ''alice'' ''Rank1250'' demoState = (Inr (Failed ''Invalid credentials''), demoState)"
    by (simp add: superUser_def alice_def)
  show ?thesis using us a b c d by simp
qed

text \<open>
  C7. \<open>registerUser\<close> with a username that a stored user has returns "Username exists"
  and leaves the whole state, the document and localStorage included, as it was.
\<close>

theorem registerUser_existing:
  "users (meta s) = Some us \<Longrightarrow> un \<in> username ` set us \<Longrightarrow>
     registerUser un pw dn now s = (Inr (Failed ''Username exists''), s)"
proof -
  assume us: "users (meta s) = Some us" and mem: "un \<in> username ` set us"
  from mem have "find (\<lambda>u. username u = un) us \<noteq> None"
    by (auto simp: find_None_iff)
  then show ?thesis using us by (simp add: registerUser_def)
qed

theorem registerUser_existing_witness:
  "users (meta demoState) = Some [superUser, alice]
   \<and> ''alice'' \<in> username ` set [superUser, alice]
   \<and> registerUser ''alice'' ''pw'' ''Alice Two'' 7 demoState
       = (Inr (Failed ''Username exists''), demoState)"
proof -
  have us: "users (meta demoState) = Some [superUser, alice]"
    by (simp add: demoState_def demoMeta_def)
  have mem: "''alice'' \<in> username ` set [superUser, alice]"
    by (simp add: alice_def)
  from registerUser_existing [OF us mem] show ?thesis using us mem by simp
qed

section \<open>Next and previous\<close>

text \<open>The cursor is never negative: it starts at 0, and no operation of the player makes
  it negative.\<close>

lemma playSong_index_nonneg:
  "0 \<le> index (player s) \<Longrightarrow> 0 \<le> index (player (snd (playSong songId cq hw s)))"
  by (auto simp: playSong_def toast_def Let_def split: option.splits play_result.splits)

lemma playNext_index_nonneg:
  "0 \<le> index (player s) \<Longrightarrow> 0 \<le> index (player (snd (playNext hw s)))"
  by (auto simp: playNext_def Let_def js_rem_sign intro!: playSong_index_nonneg)

lemma playPrev_index_nonneg:
  "0 \<le> index (player s) \<Longrightarrow> 0 \<le> index (player (snd (playPrev hw s)))"
  by (cases "queue (player s)") (auto simp: playPrev_def Let_def js_rem_sign intro!: playSong_index_nonneg)

text \<open>
  C8. On a queue of length \<open>n \<ge> 1\<close>, \<open>playNext\<close> sets the index to
  \<open>(index + 1) mod n\<close> and \<open>playPrev\<close> to \<open>(index - 1) mod n\<close>, a position of the
  queue, and then calls \<open>playSong\<close> on the song at that position with the same queue;
  from \<open>n - 1\<close> the next index is 0, from 0 the previous index is \<open>n - 1\<close>. On an
  empty queue both do nothing.
\<close>

theorem playNext_playPrev_wrap:
  "queue (player s) = q \<Longrightarrow> 0 \<le> index (player s) \<Longrightarrow>
     (q \<noteq> [] \<longrightarrow>
        (let n = int (length q);
             i = (index (player s) + 1) mod n;
             j = (index (player s) - 1) mod n
         in 0 \<le> i \<and> i < n \<and> 0 \<le> j \<and> j < n
            \<and> playNext hw s =
                playSong (Some (q ! nat i)) (Some q) hw (s\<lparr>player := (player s)\<lparr>index := i\<rparr>\<rparr>)
            \<and> playPrev hw s =
                playSong (Some (q ! nat j)) (Some q) hw (s\<lparr>player := (player s)\<lparr>index := j\<rparr>\<rparr>)
            \<and> (index (player s) = n - 1 \<longrightarrow> i = 0)
            \<and> (index (player s) = 0 \<longrightarrow> j = n - 1)))
     \<and> (q = [] \<longrightarrow> playNext hw s = (Inr (), s) \<and> playPrev hw s = (Inr (), s))"
proof (intro conjI impI)
  assume q: "queue (player s) = q" and nn: "0 \<le> index (player s)"
  {
    assume "q = []"
    then show "playNext hw s = (Inr (), s)" using q by (simp add: playNext_def)
  }
  {
    assume "q = []"
    then show "playPrev hw s = (Inr (), s)" using q by (simp add: playPrev_def)
  }
  {
    assume ne: "q \<noteq> []"
    define n where "n = int (length q)"
    define i where "i = (index (player s) + 1) mod n"
    define j where "j = (index (player s) - 1) mod n"
    have n: "0 < n" using ne by (simp add: n_def)
    have ir: "0 \<le> i \<and> i < n" using n by (simp add: i_def)
    have jr: "0 \<le> j \<and> j < n" using n by (simp add: j_def)
    have ri: "js_rem (index (player s) + 1) n = i"
      using nn n by (simp add: js_rem_nonneg i_def)
    have "js_rem (index (player s) - 1 + n) n = (index (player s) - 1 + n) mod n"
      using nn n by (intro js_rem_nonneg) auto
    then have rj: "js_rem (index (player s) - 1 + n) n = j" by (simp add: j_def)
    have ni: "js_nth q i = Some (q ! nat i)" using ir by (simp add: js_nth_def n_def)
    have nj: "js_nth q j = Some (q ! nat j)" using jr by (simp add: js_nth_def n_def)
    have nx: "playNext hw s =
                playSong (Some (q ! nat i)) (Some q) hw (s\<lparr>player := (player s)\<lparr>index := i\<rparr>\<rparr>)"
      using q ne ri ni by (simp add: playNext_def Let_def n_def)
    have pv: "playPrev hw s =
                playSong (Some (q ! nat j)) (Some q) hw (s\<lparr>player := (player s)\<lparr>index := j\<rparr>\<rparr>)"
      using q ne rj nj by (simp add: playPrev_def Let_def n_def)
    have w1: "index (player s) = n - 1 \<longrightarrow> i = 0" by (simp add: i_def)
    have w2: "index (player s) = 0 \<longrightarrow> j = n - 1" using n by (simp add: j_def zmod_minus1)
    show "let n = int (length q);
             i = (index (player s) + 1) mod n;
             j = (index (player s) - 1) mod n
         in 0 \<le> i \<and> i < n \<and> 0 \<le> j \<and> j < n
            \<and> playNext hw s =
                playSong (Some (q ! nat i)) (Some q) hw (s\<lparr>player := (player s)\<lparr>index := i\<rparr>\<rparr>)
            \<and> playPrev hw s =
                playSong (Some (q ! nat j)) (Some q) hw (s\<lparr>player := (player s)\<lparr>index := j\<rparr>\<rparr>)
            \<and> (index (player s) = n - 1 \<longrightarrow> i = 0)
            \<and> (index (player s) = 0 \<longrightarrow> j = n - 1)"
      unfolding Let_def n_def[symmetric] i_def[symmetric] j_def[symmetric]
      using ir jr nx pv w1 w2 by simp
  }
qed

theorem playNext_playPrev_wrap_witness:
  "queue (player queueState) = [''song_1'', ''song_7'', ''song_8'']
   \<and> index (player queueState) = 2
   \<and> index (player (snd (playNext Resolved queueState))) = 0
   \<and> currentSongId (player (snd (playNext Resolved queueState))) = Some ''song_1''
   \<and> index (player (snd (playPrev Resolved (snd (playNext Resolved queueState))))) = 2
   \<and> toasts (snd (playPrev Resolved (snd (playNext Resolved queueState)))) = [''Song missing'']
   \<and> playNext Resolved demoState = (Inr (), demoState)
   \<and> playPrev Resolved demoState = (Inr (), demoState)"
proof -
  define s1 where "s1 = snd (playNext Resolved queueState)"
  have q: "queue (player queueState) = [''song_1'', ''song_7'', ''song_8'']"
    by (simp add: queueState_def)
  have i: "index (player queueState) = 2" by (simp add: queueState_def)
  have i0: "0 \<le> index (player queueState)" by (simp add: i)
  from playNext_playPrev_wrap [OF q i0, of Resolved]
  have n: "playNext Resolved queueState =
      playSong (Some ''song_1'') (Some [''song_1'', ''song_7'', ''song_8'']) Resolved
        (queueState\<lparr>player := (player queueState)\<lparr>index := 0\<rparr>\<rparr>)"
    by (simp add: i Let_def)
  have a: "index (player s1) = 0" "currentSongId (player s1) = Some ''song_1''"
    "queue (player s1) = [''song_1'', ''song_7'', ''song_8'']" "toasts s1 = []"
    "songs (meta s1) = Some [demoSong]"
    unfolding s1_def n
    by (simp_all add: playSong_def queueState_def demoState_def demoMeta_def demoSong_def
        saveMeta_def Let_def)
  have i1: "0 \<le> index (player s1)" by (simp add: a)
  from playNext_playPrev_wrap [OF a(3) i1, of Resolved]
  have p: "playPrev Resolved s1 =
      playSong (Some ''song_8'') (Some [''song_1'', ''song_7'', ''song_8'']) Resolved
        (s1\<lparr>player := (player s1)\<lparr>index := 2\<rparr>\<rparr>)"
    by (simp add: a Let_def)
  have b: "index (player (snd (playPrev Resolved s1))) = 2"
    "toasts (snd (playPrev Resolved s1)) = [''Song missing'']"
    unfolding p by (simp_all add: playSong_def toast_def a demoSong_def)
  have e: "queue (player demoState) = []" by (simp add: demoState_def)
  have e0: "0 \<le> index (player demoState)" by (simp add: demoState_def)
  from playNext_playPrev_wrap [OF e e0, of Resolved]
  have c: "playNext Resolved demoState = (Inr (), demoState)"
    "playPrev Resolved demoState = (Inr (), demoState)"
    by simp_all
  show ?thesis using q i a b c unfolding s1_def by simp
qed

section \<open>Follow and unfollow\<close>

lemma js_get_upd: "js_get (f(t \<mapsto> v)) t = Own v"
  by (simp add: js_get_def)

lemma js_get_cases:
  "js_get f t = Undefined \<Longrightarrow> f t = None"
  "js_get f t = Own a \<Longrightarrow> f t = Some a"
  "js_get f t = Inherited \<Longrightarrow> f t = None"
  by (auto simp: js_get_def split: option.splits if_splits)

lemma followUser_inherited:
  "currentUser s = Some cu \<Longrightarrow> followers (meta s) = Some f \<Longrightarrow> js_get f t = Inherited \<Longrightarrow>
     followUser t s = (Inl TypeError, s)"
  by (simp add: followUser_def)

lemma followUser_signed_in:
  assumes "currentUser s = Some cu" and "followers (meta s) = Some f"
    and "js_get f t \<noteq> Inherited"
    and "arr = (case js_get f t of Own a \<Rightarrow> a | _ \<Rightarrow> [])"
    and "arr' = (if username cu \<in> set arr then arr else arr @ [username cu])"
    and "m = (meta s)\<lparr>followers := Some (f(t \<mapsto> arr'))\<rparr>"
  shows "followUser t s = (Inr (), s\<lparr>meta := m, localStorage := Some (JsonDoc m)\<rparr>)"
proof (cases "js_get f t")
  case Undefined
  then show ?thesis using assms
    by (simp add: followUser_def Let_def saveMeta_def js_get_upd)
next
  case (Own a)
  then show ?thesis using assms
    by (simp add: followUser_def Let_def saveMeta_def)
next
  case Inherited
  then show ?thesis using assms(3) by simp
qed

lemma followUser_twice:
  assumes cu: "currentUser s = Some cu"
  shows "snd (followUser t (snd (followUser t s))) = snd (followUser t s)"
proof (cases "followers (meta s)")
  case None
  then show ?thesis using cu by (simp add: followUser_def)
next
  case (Some f)
  show ?thesis
  proof (cases "js_get f t = Inherited")
    case True
    have "followUser t s = (Inl TypeError, s)" by (rule followUser_inherited[OF cu Some True])
    then show ?thesis by simp
  next
    case False
    define arr where "arr = (case js_get f t of Own a \<Rightarrow> a | _ \<Rightarrow> [])"
    define arr' where "arr' = (if username cu \<in> set arr then arr else arr @ [username cu])"
    define m where "m = (meta s)\<lparr>followers := Some (f(t \<mapsto> arr'))\<rparr>"
    define s' where "s' = s\<lparr>meta := m, localStorage := Some (JsonDoc m)\<rparr>"
    have one: "followUser t s = (Inr (), s')"
      unfolding s'_def by (rule followUser_signed_in[OF cu Some False arr_def arr'_def m_def])
    have cu': "currentUser s' = Some cu" using cu by (simp add: s'_def)
    have f': "followers (meta s') = Some (f(t \<mapsto> arr'))" by (simp add: s'_def m_def)
    have ni: "js_get (f(t \<mapsto> arr')) t \<noteq> Inherited" by (simp add: js_get_upd)
    have mem: "username cu \<in> set arr'" by (simp add: arr'_def)
    have a2: "arr' = (case js_get (f(t \<mapsto> arr')) t of Own a \<Rightarrow> a | _ \<Rightarrow> [])"
      by (simp add: js_get_upd)
    have a3: "arr' = (if username cu \<in> set arr' then arr' else arr' @ [username cu])"
      using mem by simp
    have m2: "m = (meta s')\<lparr>followers := Some ((f(t \<mapsto> arr'))(t \<mapsto> arr'))\<rparr>"
      by (simp add: s'_def m_def)
    have "followUser t s' = (Inr (), s'\<lparr>meta := m, localStorage := Some (JsonDoc m)\<rparr>)"
      by (rule followUser_signed_in[OF cu' f' ni a2 a3 m2])
    then have "followUser t s' = (Inr (), s')" by (simp add: s'_def)
    then show ?thesis using one by simp
  qed
qed

lemma followersOf_Some:
  "followersOf s t = Some F \<Longrightarrow>
     \<exists>f. followers (meta s) = Some f \<and> js_get f t \<noteq> Inherited
         \<and> F = set (case js_get f t of Own a \<Rightarrow> a | _ \<Rightarrow> [])"
  by (auto simp: followersOf_def split: option.splits js_prop.splits)

lemma followersOf_None:
  "followersOf s t = None \<Longrightarrow>
     followers (meta s) = None \<or> (\<exists>f. followers (meta s) = Some f \<and> js_get f t = Inherited)"
  by (auto simp: followersOf_def split: option.splits js_prop.splits)

lemma followersOf_followUser:
  assumes cu: "currentUser s = Some cu" and F: "followersOf s t = Some F"
  shows "followersOf (snd (followUser t s)) t = Some (insert (username cu) F)"
proof -
  from followersOf_Some[OF F] obtain f where
    f: "followers (meta s) = Some f" and ni: "js_get f t \<noteq> Inherited"
    and Fs: "F = set (case js_get f t of Own a \<Rightarrow> a | _ \<Rightarrow> [])"
    by blast
  define arr where "arr = (case js_get f t of Own a \<Rightarrow> a | _ \<Rightarrow> [])"
  define arr' where "arr' = (if username cu \<in> set arr then arr else arr @ [username cu])"
  define m where "m = (meta s)\<lparr>followers := Some (f(t \<mapsto> arr'))\<rparr>"
  have one: "followUser t s = (Inr (), s\<lparr>meta := m, localStorage := Some (JsonDoc m)\<rparr>)"
    by (rule followUser_signed_in[OF cu f ni arr_def arr'_def m_def])
  have "followersOf (snd (followUser t s)) t = Some (set arr')"
    unfolding one by (simp add: followersOf_def m_def js_get_upd)
  also have "set arr' = insert (username cu) (set arr)" by (auto simp: arr'_def)
  finally show ?thesis using Fs by (simp add: arr_def)
qed

lemma unfollowUser_inherited:
  "currentUser s = Some cu \<Longrightarrow> followers (meta s) = Some f \<Longrightarrow> js_get f t = Inherited \<Longrightarrow>
     unfollowUser t s = (Inl TypeError, s)"
  by (simp add: unfollowUser_def)

lemma followersOf_unfollowUser:
  assumes cu: "currentUser s = Some cu" and F: "followersOf s t = Some F"
  shows "\<exists>arr. F = set arr \<and> followersOf (snd (unfollowUser t s)) t = Some (set (remove1 (username cu) arr))"
proof -
  from followersOf_Some[OF F] obtain f where
    f: "followers (meta s) = Some f" and ni: "js_get f t \<noteq> Inherited"
    and Fs: "F = set (case js_get f t of Own a \<Rightarrow> a | _ \<Rightarrow> [])"
    by blast
  define arr where "arr = (case js_get f t of Own a \<Rightarrow> a | _ \<Rightarrow> [])"
  have sp: "(if indexOf arr (username cu) \<ge> 0 then splice1 (nat (indexOf arr (username cu))) arr else arr)
            = remove1 (username cu) arr"
  proof (cases "username cu \<in> set arr")
    case True
    then show ?thesis using indexOf_nonneg[of "username cu" arr] by (simp add: splice1_indexOf)
  next
    case False
    then show ?thesis using indexOf_absent[of "username cu" arr] by (simp add: remove1_idem)
  qed
  have "followers (meta (snd (unfollowUser t s)))
        = Some (f(t \<mapsto> (if indexOf arr (username cu) \<ge> 0
                          then splice1 (nat (indexOf arr (username cu))) arr else arr)))"
    using cu f ni by (cases "js_get f t") (simp_all add: unfollowUser_def Let_def arr_def)
  then have "followersOf (snd (unfollowUser t s)) t = Some (set (remove1 (username cu) arr))"
    unfolding sp by (simp add: followersOf_def js_get_upd)
  then show ?thesis using Fs arr_def by blast
qed

text \<open>
  C9. For a signed-in user and every target name, following twice leaves the state, and
  so the target's follower set, as following once leaves it. Where the target has a
  follower set, following succeeds and the set is the old one with the user added; where
  it has none (the name is inherited from \<open>Object.prototype\<close>, or the \<open>followers\<close> field
  is absent), follow and unfollow throw and change nothing. \<open>unfollowUser\<close> by a user
  who is not in the target's follower set leaves this set as it was.
\<close>

theorem follow_unfollow_idempotent:
  "currentUser s = Some cu \<Longrightarrow>
     followersOf (snd (followUser t (snd (followUser t s)))) t = followersOf (snd (followUser t s)) t
     \<and> snd (followUser t (snd (followUser t s))) = snd (followUser t s)
     \<and> (\<forall>F. followersOf s t = Some F \<longrightarrow>
          fst (followUser t s) = Inr ()
          \<and> followersOf (snd (followUser t s)) t = Some (insert (username cu) F))
     \<and> (followersOf s t = None \<longrightarrow>
          followUser t s = (Inl TypeError, s) \<and> unfollowUser t s = (Inl TypeError, s))
     \<and> ((\<forall>F. followersOf s t = Some F \<longrightarrow> username cu \<notin> F) \<longrightarrow>
          followersOf (snd (unfollowUser t s)) t = followersOf s t)"
proof (intro conjI impI allI)
  assume cu: "currentUser s = Some cu"
  show tw: "snd (followUser t (snd (followUser t s))) = snd (followUser t s)"
    by (rule followUser_twice[OF cu])
  show "followersOf (snd (followUser t (snd (followUser t s)))) t = followersOf (snd (followUser t s)) t"
    by (simp add: tw)
  {
    fix F assume F: "followersOf s t = Some F"
    show "followersOf (snd (followUser t s)) t = Some (insert (username cu) F)"
      by (rule followersOf_followUser[OF cu F])
    from followersOf_Some[OF F] obtain f where
      f: "followers (meta s) = Some f" and ni: "js_get f t \<noteq> Inherited" by blast
    have "followUser t s = (Inr (), s\<lparr>meta := (meta s)\<lparr>followers := Some (f(t \<mapsto>
             (if username cu \<in> set (case js_get f t of Own a \<Rightarrow> a | _ \<Rightarrow> [])
              then (case js_get f t of Own a \<Rightarrow> a | _ \<Rightarrow> [])
              else (case js_get f t of Own a \<Rightarrow> a | _ \<Rightarrow> []) @ [username cu])))\<rparr>,
           localStorage := Some (JsonDoc ((meta s)\<lparr>followers := Some (f(t \<mapsto>
             (if username cu \<in> set (case js_get f t of Own a \<Rightarrow> a | _ \<Rightarrow> [])
              then (case js_get f t of Own a \<Rightarrow> a | _ \<Rightarrow> [])
              else (case js_get f t of Own a \<Rightarrow> a | _ \<Rightarrow> []) @ [username cu])))\<rparr>))\<rparr>)"
      by (rule followUser_signed_in[OF cu f ni refl refl refl])
    then show "fst (followUser t s) = Inr ()" by simp
  }
  {
    assume N: "followersOf s t = None"
    from followersOf_None[OF N]
    show "followUser t s = (Inl TypeError, s)"
      using cu by (auto simp: followUser_def)
    from followersOf_None[OF N]
    show "unfollowUser t s = (Inl TypeError, s)"
      using cu by (auto simp: unfollowUser_def)
  }
  {
    assume nf: "\<forall>F. followersOf s t = Some F \<longrightarrow> username cu \<notin> F"
    show "followersOf (snd (unfollowUser t s)) t = followersOf s t"
    proof (cases "followersOf s t")
      case None
      from followersOf_None[OF None] have "unfollowUser t s = (Inl TypeError, s)"
        using cu by (auto simp: unfollowUser_def)
      then show ?thesis by simp
    next
      case (Some F)
      from followersOf_unfollowUser[OF cu Some] obtain arr where
        a: "F = set arr" "followersOf (snd (unfollowUser t s)) t = Some (set (remove1 (username cu) arr))"
        by blast
      have "username cu \<notin> set arr" using nf Some a(1) by blast
      then show ?thesis using a Some by (simp add: remove1_idem)
    qed
  }
qed

theorem follow_unfollow_idempotent_witness:
  "currentUser aliceState = Some alice
   \<and> followersOf aliceState ''RankRates'' = Some {}
   \<and> followersOf (snd (followUser ''RankRates'' aliceState)) ''RankRates'' = Some {''alice''}
   \<and> followersOf (snd (followUser ''RankRates'' (snd (followUser ''RankRates'' aliceState)))) ''RankRates''
       = Some {''alice''}
   \<and> followersOf (snd (unfollowUser ''RankRates'' aliceState)) ''RankRates'' = Some {}
   \<and> followersOf aliceState ''constructor'' = None
   \<and> followUser ''constructor'' aliceState = (Inl TypeError, aliceState)
   \<and> unfollowUser ''constructor'' aliceState = (Inl TypeError, aliceState)"
proof -
  have cu: "currentUser aliceState = Some alice" by (simp add: aliceState_def)
  have e: "followersOf aliceState ''RankRates'' = Some {}"
    by (simp add: followersOf_def js_get_def objectPrototypeKeys_def aliceState_def
        demoState_def demoMeta_def)
  have i: "followersOf aliceState ''constructor'' = None"
    by (simp add: followersOf_def js_get_def objectPrototypeKeys_def aliceState_def
        demoState_def demoMeta_def)
  have n: "username alice = ''alice''" by (simp add: alice_def)
  note t = follow_unfollow_idempotent [OF cu, of "''RankRates''"]
  from t e n have a: "followersOf (snd (followUser ''RankRates'' aliceState)) ''RankRates'' = Some {''alice''}"
    by simp
  from t a have b: "followersOf (snd (followUser ''RankRates'' (snd (followUser ''RankRates'' aliceState)))) ''RankRates''
       = Some {''alice''}" by simp
  from t e n have c: "followersOf (snd (unfollowUser ''RankRates'' aliceState)) ''RankRates'' = Some {}"
    by simp
  from follow_unfollow_idempotent [OF cu, of "''constructor''"] i
  have d: "followUser ''constructor'' aliceState = (Inl TypeError, aliceState)"
    "unfollowUser ''constructor'' aliceState = (Inl TypeError, aliceState)"
    by simp_all
  show ?thesis using cu e i a b c d by simp
qed

section \<open>The bootstrap of the super admin\<close>

lemma countUsers_zero: "(countUsers un us = 0) = (find (\<lambda>u. username u = un) us = None)"
  by (auto simp: countUsers_def find_None_iff filter_empty_conv)

lemma countUsers_snoc:
  "countUsers un (us @ [u]) = countUsers un us + (if username u = un then 1 else 0)"
  by (simp add: countUsers_def)

lemma countUsers_distinct: "distinct (map username us) \<Longrightarrow> countUsers un us \<le> 1"
proof (induction us)
  case Nil
  then show ?case by (simp add: countUsers_def)
next
  case (Cons u us)
  show ?case
  proof (cases "username u = un")
    case True
    then have "un \<notin> username ` set us" using Cons.prems by auto
    then have "countUsers un us = 0" by (auto simp: countUsers_def filter_empty_conv)
    then show ?thesis using True by (simp add: countUsers_def)
  next
    case False
    then show ?thesis using Cons by (simp add: countUsers_def)
  qed
qed

lemma ensureSuperAdmin_found:
  "users (meta s) = Some us \<Longrightarrow> find (\<lambda>u. username u = ''RankRates'') us = Some u \<Longrightarrow>
     ensureSuperAdmin now s = (Inr (), s)"
  by (simp add: ensureSuperAdmin_def)

lemma ensureSuperAdmin_created:
  assumes "users (meta s) = Some us" and "find (\<lambda>u. username u = ''RankRates'') us = None"
    and "nextIds (meta s) = Some nx"
    and "su = \<lparr>user_id = nid_user nx, username = ''RankRates'', password = ''Rank1250'',
                displayName = ''RankRates'', bio = ''Super admin'', verified = True,
                superAdmin = True, imageAssetId = None, createdAt = now\<rparr>"
    and "m = (meta s)\<lparr>nextIds := Some (nx\<lparr>nid_user := nid_user nx + 1\<rparr>), users := Some (us @ [su])\<rparr>"
  shows "ensureSuperAdmin now s =
           (Inr (), s\<lparr>meta := m, localStorage := Some (JsonDoc m),
                      toasts := toasts s @ [''SuperAdmin created: RankRates'']\<rparr>)"
  using assms by (simp add: ensureSuperAdmin_def Let_def saveMeta_def toast_def)

text \<open>
  C10, as the code has it. On a document that has its users and id counters,
  \<open>ensureSuperAdmin\<close> leaves at least one user named \<open>RankRates\<close>. When there was none,
  it appends exactly one, with \<open>superAdmin\<close> and \<open>verified\<close> set and the next user id,
  and saves the document; when there was one, the state is unchanged. When the usernames
  were unique before, they are unique after, and exactly one user is named \<open>RankRates\<close>.
  Running it again changes nothing.
\<close>

theorem ensureSuperAdmin_bootstrap:
  "users (meta s) = Some us \<Longrightarrow> nextIds (meta s) = Some nx \<Longrightarrow>
     (let s' = snd (ensureSuperAdmin now s)
      in fst (ensureSuperAdmin now s) = Inr ()
         \<and> (\<exists>us'. users (meta s') = Some us' \<and> 1 \<le> countUsers ''RankRates'' us'
               \<and> (countUsers ''RankRates'' us = 0 \<longrightarrow>
                    (\<exists>su. us' = us @ [su] \<and> username su = ''RankRates'' \<and> superAdmin su
                          \<and> verified su \<and> user_id su = nid_user nx)
                    \<and> countUsers ''RankRates'' us' = 1
                    \<and> localStorage s' = Some (JsonDoc (meta s')))
               \<and> (1 \<le> countUsers ''RankRates'' us \<longrightarrow> s' = s)
               \<and> (distinct (map username us) \<longrightarrow>
                    distinct (map username us') \<and> countUsers ''RankRates'' us' = 1))
         \<and> ensureSuperAdmin now' s' = (Inr (), s'))"
proof -
  assume us: "users (meta s) = Some us" and nx: "nextIds (meta s) = Some nx"
  show ?thesis
  proof (cases "find (\<lambda>u. username u = ''RankRates'') us")
    case (Some u)
    have r: "ensureSuperAdmin now s = (Inr (), s)" by (rule ensureSuperAdmin_found[OF us Some])
    have r': "ensureSuperAdmin now' s = (Inr (), s)" by (rule ensureSuperAdmin_found[OF us Some])
    have "countUsers ''RankRates'' us \<noteq> 0"
      using Some by (simp add: countUsers_zero)
    then have c: "1 \<le> countUsers ''RankRates'' us" by linarith
    have d: "distinct (map username us) \<longrightarrow> countUsers ''RankRates'' us = 1"
      using c countUsers_distinct[of us "''RankRates''"] by auto
    have ex: "\<exists>us'. users (meta s) = Some us' \<and> 1 \<le> countUsers ''RankRates'' us'
               \<and> (countUsers ''RankRates'' us = 0 \<longrightarrow>
                    (\<exists>su. us' = us @ [su] \<and> username su = ''RankRates'' \<and> superAdmin su
                          \<and> verified su \<and> user_id su = nid_user nx)
                    \<and> countUsers ''RankRates'' us' = 1
                    \<and> localStorage s = Some (JsonDoc (meta s)))
               \<and> (1 \<le> countUsers ''RankRates'' us \<longrightarrow> s = s)
               \<and> (distinct (map username us) \<longrightarrow>
                    distinct (map username us') \<and> countUsers ''RankRates'' us' = 1)"
    proof (intro exI[of _ us] conjI impI)
      show "users (meta s) = Some us" by (rule us)
      show "1 \<le> countUsers ''RankRates'' us" by (rule c)
      show "s = s" by (rule refl)
      show "distinct (map username us)" if "distinct (map username us)" using that .
      show "countUsers ''RankRates'' us = 1" if "distinct (map username us)" using that d by blast
      show "\<exists>su. us = us @ [su] \<and> username su = ''RankRates'' \<and> superAdmin su
                          \<and> verified su \<and> user_id su = nid_user nx"
        if "countUsers ''RankRates'' us = 0" using that c by linarith
      show "countUsers ''RankRates'' us = 1" if "countUsers ''RankRates'' us = 0"
        using that c by linarith
      show "localStorage s = Some (JsonDoc (meta s))" if "countUsers ''RankRates'' us = 0"
        using that c by linarith
    qed
    have fs: "fst (Inr () :: error + unit, s) = Inr ()" "snd (Inr () :: error + unit, s) = s"
      by simp_all
    show ?thesis unfolding Let_def r fs by (intro conjI refl ex r')
  next
    case None
    define su where "su = \<lparr>user_id = nid_user nx, username = ''RankRates'', password = ''Rank1250'',
                displayName = ''RankRates'', bio = ''Super admin'', verified = True,
                superAdmin = True, imageAssetId = None, createdAt = now\<rparr>"
    define m where "m = (meta s)\<lparr>nextIds := Some (nx\<lparr>nid_user := nid_user nx + 1\<rparr>), users := Some (us @ [su])\<rparr>"
    define s' where "s' = s\<lparr>meta := m, localStorage := Some (JsonDoc m),
                      toasts := toasts s @ [''SuperAdmin created: RankRates'']\<rparr>"
    have r: "ensureSuperAdmin now s = (Inr (), s')"
      unfolding s'_def by (rule ensureSuperAdmin_created[OF us None nx su_def m_def])
    have z: "countUsers ''RankRates'' us = 0" using None by (simp add: countUsers_zero)
    have fresh: "''RankRates'' \<notin> username ` set us" using None by (auto simp: find_None_iff)
    have n: "username su = ''RankRates''" by (simp add: su_def)
    have us': "users (meta s') = Some (us @ [su])" by (simp add: s'_def m_def)
    have c: "countUsers ''RankRates'' (us @ [su]) = 1" using z n by (simp add: countUsers_snoc)
    have ls: "localStorage s' = Some (JsonDoc (meta s'))" by (simp add: s'_def)
    have su: "superAdmin su \<and> verified su \<and> user_id su = nid_user nx" by (simp add: su_def)
    have "username su \<notin> username ` set us" unfolding n by (rule fresh)
    then have d: "distinct (map username us) \<longrightarrow> distinct (map username (us @ [su]))"
      by simp
    have f: "find (\<lambda>u. username u = ''RankRates'') (us @ [su]) = Some su"
      unfolding find_snoc None using n by simp
    have r': "ensureSuperAdmin now' s' = (Inr (), s')" by (rule ensureSuperAdmin_found[OF us' f])
    have ex: "\<exists>us'. users (meta s') = Some us' \<and> 1 \<le> countUsers ''RankRates'' us'
               \<and> (countUsers ''RankRates'' us = 0 \<longrightarrow>
                    (\<exists>su. us' = us @ [su] \<and> username su = ''RankRates'' \<and> superAdmin su
                          \<and> verified su \<and> user_id su = nid_user nx)
                    \<and> countUsers ''RankRates'' us' = 1
                    \<and> localStorage s' = Some (JsonDoc (meta s')))
               \<and> (1 \<le> countUsers ''RankRates'' us \<longrightarrow> s' = s)
               \<and> (distinct (map username us) \<longrightarrow>
                    distinct (map username us') \<and> countUsers ''RankRates'' us' = 1)"
    proof (intro exI[of _ "us @ [su]"] conjI impI)
      show "users (meta s') = Some (us @ [su])" by (rule us')
      show "1 \<le> countUsers ''RankRates'' (us @ [su])" using c by linarith
      show "s' = s" if "1 \<le> countUsers ''RankRates'' us" using that z by linarith
      show "distinct (map username (us @ [su]))" if "distinct (map username us)"
        using that d by blast
      show "countUsers ''RankRates'' (us @ [su]) = 1" by (rule c)
      show "\<exists>x. us @ [su] = us @ [x] \<and> username x = ''RankRates'' \<and> superAdmin x
                          \<and> verified x \<and> user_id x = nid_user nx"
        using n su by (intro exI[of _ su]) blast
      show "countUsers ''RankRates'' (us @ [su]) = 1" by (rule c)
      show "localStorage s' = Some (JsonDoc (meta s'))" by (rule ls)
    qed
    have fs: "fst (Inr () :: error + unit, s') = Inr ()" "snd (Inr () :: error + unit, s') = s'"
      by simp_all
    show ?thesis unfolding Let_def r fs by (intro conjI refl ex r')
  qed
qed

theorem ensureSuperAdmin_bootstrap_witness:
  "users (meta (initialState None Map.empty)) = Some []
   \<and> nextIds (meta (initialState None Map.empty))
       = Some \<lparr>nid_song = 1, nid_album = 1, nid_playlist = 1, nid_user = 1\<rparr>
   \<and> users (meta (snd (ensureSuperAdmin 0 (initialState None Map.empty)))) = Some [superUser]
   \<and> ensureSuperAdmin 9 (snd (ensureSuperAdmin 0 (initialState None Map.empty)))
       = (Inr (), snd (ensureSuperAdmin 0 (initialState None Map.empty)))
   \<and> ensureSuperAdmin 9 demoState = (Inr (), demoState)"
proof -
  define s0 where "s0 = initialState None Map.empty"
  have us: "users (meta s0) = Some []"
    by (simp add: s0_def initialState_def loadMeta_def defaultMeta_def)
  have nx: "nextIds (meta s0) = Some \<lparr>nid_song = 1, nid_album = 1, nid_playlist = 1, nid_user = 1\<rparr>"
    by (simp add: s0_def initialState_def loadMeta_def defaultMeta_def)
  note t = ensureSuperAdmin_bootstrap [OF us nx, of 0 9]
  have z: "countUsers ''RankRates'' [] = 0" by (simp add: countUsers_def)
  from t z have a: "ensureSuperAdmin 9 (snd (ensureSuperAdmin 0 s0)) = (Inr (), snd (ensureSuperAdmin 0 s0))"
    by (simp add: Let_def)
  have b: "users (meta (snd (ensureSuperAdmin 0 s0))) = Some [superUser]"
    using us nx by (simp add: ensureSuperAdmin_def Let_def toast_def superUser_def)
  have dus: "users (meta demoState) = Some [superUser, alice]"
    by (simp add: demoState_def demoMeta_def)
  have dnx: "nextIds (meta demoState) = Some \<lparr>nid_song = 2, nid_album = 2, nid_playlist = 1, nid_user = 3\<rparr>"
    by (simp add: demoState_def demoMeta_def)
  have dc: "1 \<le> countUsers ''RankRates'' [superUser, alice]"
    by (simp add: countUsers_def superUser_def)
  from ensureSuperAdmin_bootstrap [OF dus dnx, of 9 9] dc
  have c: "ensureSuperAdmin 9 demoState = (Inr (), demoState)"
    by (cases "ensureSuperAdmin 9 demoState") (auto simp: Let_def)
  show ?thesis using us nx a b c unfolding s0_def by simp
qed

text \<open>C10 as stated fails on a document in which \<open>RankRates\<close> is an ordinary user: the
  user is left as it is, neither super admin nor verified. On a document with two users
  of that name, both stay.\<close>

theorem ensureSuperAdmin_existing_counterexample:
  "users (meta (snd (ensureSuperAdmin 0 plainState))) = Some [plainRankRates]
   \<and> \<not> superAdmin plainRankRates \<and> \<not> verified plainRankRates
   \<and> users (meta (snd (ensureSuperAdmin 0
        (demoState\<lparr>meta := demoMeta\<lparr>users := Some [superUser, plainRankRates]\<rparr>\<rparr>))))
       = Some [superUser, plainRankRates]
   \<and> countUsers ''RankRates'' [superUser, plainRankRates] = 2"
  by (simp add: ensureSuperAdmin_def plainState_def plainRankRates_def superUser_def
      countUsers_def demoState_def demoMeta_def)

end
